theory Spec2Isabelle
  imports Main
begin

section \<open>The queue of \<open>queue.go\<close>\<close>

text \<open>
  \<open>queue.go\<close> implements a FIFO queue over a slice of \<open>interface{}\<close> values, with two
  cached counters and a \<open>sync.Mutex\<close>. The model below follows the source statement by
  statement, for one goroutine calling the methods one after the other.

  \<^item> An \<open>interface{}\<close> value is either Go's \<open>nil\<close> or a value of the element type; the
    comparison \<open>c == s\<close> of \<open>InQueue\<close> is HOL equality, so the element type is one whose
    dynamic values Go can compare.
  \<^item> The slice \<open>data\<close> is a list. Its capacity is dropped: no method reads it.
  \<^item> Go's \<open>int\<close> is modelled by the unbounded \<open>int\<close>; each statement changes a counter by
    at most the length of a slice, so no run that fits in memory wraps it.
  \<^item> The mutex is the boolean field \<open>mu\<close> (\<open>True\<close> when locked). \<open>sync.Mutex\<close> is not
    reentrant: \<open>Lock\<close> on a mutex that the calling goroutine already holds never returns.
    Only the methods of the queue touch \<open>mu\<close>, and each of them locks before it unlocks,
    so nobody else can release it: the call is \<open>Blocked\<close> for good.
  \<^item> An index out of range and an \<open>Unlock\<close> of an unlocked mutex stop the program:
    \<open>Panic\<close>.
\<close>

datatype 'a iface = NilValue | Value 'a

datatype ('r, 's) outcome = Return 'r 's | Blocked 's | Panic

definition andThen ::
  "('r, 's) outcome \<Rightarrow> ('r \<Rightarrow> 's \<Rightarrow> ('t, 's) outcome) \<Rightarrow> ('t, 's) outcome" where
  "andThen m f = (case m of Return r s \<Rightarrow> f r s | Blocked s \<Rightarrow> Blocked s | Panic \<Rightarrow> Panic)"

record 'a Queue =
  data :: "'a iface list"
  length_fld :: int
  totalPushed :: int
  mu :: bool

definition Lock :: "'a Queue \<Rightarrow> (unit, 'a Queue) outcome" where
  "Lock q = (if mu q then Blocked q else Return () (q\<lparr>mu := True\<rparr>))"

definition Unlock :: "'a Queue \<Rightarrow> (unit, 'a Queue) outcome" where
  "Unlock q = (if mu q then Return () (q\<lparr>mu := False\<rparr>) else Panic)"

text \<open>\<open>MakeQueue\<close>: both branches build an empty, unlocked queue; they differ in capacity only.\<close>

definition MakeQueue :: "int \<Rightarrow> 'a Queue" where
  "MakeQueue initSize =
     (if initSize \<le> 0 then \<lparr>data = [], length_fld = 0, totalPushed = 0, mu = False\<rparr>
      else \<lparr>data = [], length_fld = 0, totalPushed = 0, mu = False\<rparr>)"

definition TotalIn :: "'a Queue \<Rightarrow> (int, 'a Queue) outcome" where
  "TotalIn q =
     andThen (Lock q) (\<lambda>_ q1.
       let x = totalPushed q1 in
       andThen (Unlock q1) (\<lambda>_ q2. Return x q2))"

text \<open>
  \<open>Top\<close> and \<open>Pop\<close> return a pair \<open>(item, error)\<close>; the error is \<open>None\<close> for Go's \<open>nil\<close>
  and otherwise carries the message given to \<open>errors.New\<close>. \<open>q.data[0]\<close> panics on an
  empty slice.
\<close>

definition Top :: "'a Queue \<Rightarrow> ('a iface \<times> string option, 'a Queue) outcome" where
  "Top q =
     andThen (Lock q) (\<lambda>_ q1.
       if length_fld q1 = 0
       then andThen (Unlock q1) (\<lambda>_ q2. Return (NilValue, Some ''queue empty'') q2)
       else (case data q1 of
               [] \<Rightarrow> Panic
             | item # _ \<Rightarrow> andThen (Unlock q1) (\<lambda>_ q2. Return (item, None) q2)))"

definition Pop :: "'a Queue \<Rightarrow> ('a iface \<times> string option, 'a Queue) outcome" where
  "Pop q =
     andThen (Lock q) (\<lambda>_ q1.
       if length_fld q1 = 0
       then andThen (Unlock q1) (\<lambda>_ q2. Return (NilValue, Some ''queue empty'') q2)
       else (case data q1 of
               [] \<Rightarrow> Panic
             | item # rest \<Rightarrow>
                 let q2 = q1\<lparr>data := rest\<rparr>;
                     q3 = q2\<lparr>length_fld := length_fld q2 - 1\<rparr>
                 in andThen (Unlock q3) (\<lambda>_ q4. Return (item, None) q4)))"

definition Push :: "'a iface \<Rightarrow> 'a Queue \<Rightarrow> (unit, 'a Queue) outcome" where
  "Push dt q =
     andThen (Lock q) (\<lambda>_ q1.
       let q2 = q1\<lparr>data := data q1 @ [dt]\<rparr>;
           q3 = q2\<lparr>length_fld := length_fld q2 + 1\<rparr>;
           q4 = q3\<lparr>totalPushed := totalPushed q3 + 1\<rparr>
       in andThen (Unlock q4) (\<lambda>_ q5. Return () q5))"

definition Len :: "'a Queue \<Rightarrow> (int, 'a Queue) outcome" where
  "Len q =
     andThen (Lock q) (\<lambda>_ q1.
       let res = length_fld q1 in
       andThen (Unlock q1) (\<lambda>_ q2. Return res q2))"

definition IsEmpty :: "'a Queue \<Rightarrow> (bool, 'a Queue) outcome" where
  "IsEmpty q =
     andThen (Lock q) (\<lambda>_ q1.
       let res = (length_fld q1 = 0) in
       andThen (Unlock q1) (\<lambda>_ q2. Return res q2))"

text \<open>
  \<open>slices.IndexFunc\<close> of \<open>golang.org/x/exp/slices\<close>, as that library documents it: the
  first index whose element satisfies the predicate, or \<open>-1\<close>.
\<close>

fun IndexFunc_from :: "int \<Rightarrow> 'a list \<Rightarrow> ('a \<Rightarrow> bool) \<Rightarrow> int" where
  "IndexFunc_from i [] f = - 1"
| "IndexFunc_from i (x # xs) f = (if f x then i else IndexFunc_from (i + 1) xs f)"

definition IndexFunc :: "'a list \<Rightarrow> ('a \<Rightarrow> bool) \<Rightarrow> int" where
  "IndexFunc s f = IndexFunc_from 0 s f"

text \<open>
  \<open>InQueue\<close> locks and then calls \<open>q.Len()\<close>, which locks again. Its first \<open>return\<close> has
  no \<open>Unlock\<close> before it.
\<close>

definition InQueue :: "'a iface \<Rightarrow> 'a Queue \<Rightarrow> (bool, 'a Queue) outcome" where
  "InQueue s q =
     andThen (Lock q) (\<lambda>_ q1.
       andThen (Len q1) (\<lambda>n q2.
         if n = 0 then Return False q2
         else
           let res = (IndexFunc (data q2) (\<lambda>c. c = s) \<noteq> - 1) in
           andThen (Unlock q2) (\<lambda>_ q3. Return res q3)))"

definition PushUnique :: "'a iface \<Rightarrow> 'a Queue \<Rightarrow> (unit, 'a Queue) outcome" where
  "PushUnique dt q =
     andThen (InQueue dt q) (\<lambda>found q0.
       if \<not> found then
         andThen (Lock q0) (\<lambda>_ q1.
           let q2 = q1\<lparr>data := data q1 @ [dt]\<rparr>;
               q3 = q2\<lparr>length_fld := length_fld q2 + 1\<rparr>;
               q4 = q3\<lparr>totalPushed := totalPushed q3 + 1\<rparr>
           in andThen (Unlock q4) (\<lambda>_ q5. Return () q5))
       else Return () q0)"

text \<open>The \<open>range\<close> loop of \<open>PushMany\<close>, one \<open>PushUnique\<close> per element.\<close>

fun PushMany_range :: "'a iface list \<Rightarrow> 'a Queue \<Rightarrow> (unit, 'a Queue) outcome" where
  "PushMany_range [] q = Return () q"
| "PushMany_range (d # ds) q = andThen (PushUnique d q) (\<lambda>_ q1. PushMany_range ds q1)"

definition PushMany :: "'a iface list \<Rightarrow> bool \<Rightarrow> 'a Queue \<Rightarrow> (unit, 'a Queue) outcome" where
  "PushMany dt unique q =
     (if length dt > 0 then
        (if \<not> unique then
           andThen (Lock q) (\<lambda>_ q1.
             let q2 = q1\<lparr>data := data q1 @ dt\<rparr>;
                 q3 = q2\<lparr>length_fld := length_fld q2 + int (length dt)\<rparr>
             in andThen (Unlock q3) (\<lambda>_ q4. Return () q4))
         else PushMany_range dt q)
      else Return () q)"

subsection \<open>Sequences of calls\<close>

text \<open>
  A caller's sequence of \<open>Push\<close>, \<open>PushUnique\<close>, \<open>PushMany\<close> and \<open>Pop\<close> calls; the values a
  \<open>Pop\<close> returns are dropped. A call that blocks or panics ends the run.
\<close>

datatype 'a call =
    CallPush "'a iface"
  | CallPushUnique "'a iface"
  | CallPushMany "'a iface list" bool
  | CallPop

fun perform :: "'a call \<Rightarrow> 'a Queue \<Rightarrow> (unit, 'a Queue) outcome" where
  "perform (CallPush v) q = Push v q"
| "perform (CallPushUnique v) q = PushUnique v q"
| "perform (CallPushMany vs unique) q = PushMany vs unique q"
| "perform CallPop q = andThen (Pop q) (\<lambda>_ q1. Return () q1)"

fun run :: "'a call list \<Rightarrow> 'a Queue \<Rightarrow> (unit, 'a Queue) outcome" where
  "run [] q = Return () q"
| "run (c # cs) q = andThen (perform c q) (\<lambda>_ q1. run cs q1)"

text \<open>Pushing a list of values in order, and popping \<open>n\<close> times, collecting what \<open>Pop\<close> returns.\<close>

fun pushAll :: "'a iface list \<Rightarrow> 'a Queue \<Rightarrow> (unit, 'a Queue) outcome" where
  "pushAll [] q = Return () q"
| "pushAll (v # vs) q = andThen (Push v q) (\<lambda>_ q1. pushAll vs q1)"

fun popN :: "nat \<Rightarrow> 'a Queue \<Rightarrow> (('a iface \<times> string option) list, 'a Queue) outcome" where
  "popN 0 q = Return [] q"
| "popN (Suc n) q =
     andThen (Pop q) (\<lambda>r q1. andThen (popN n q1) (\<lambda>rs q2. Return (r # rs) q2))"

text \<open>The queue is idle (nobody holds the lock) and its cached length is the slice's length.\<close>

definition idle :: "'a Queue \<Rightarrow> bool" where
  "idle q = (\<not> mu q)"

definition count_ok :: "'a Queue \<Rightarrow> bool" where
  "count_ok q = (length_fld q = int (length (data q)))"

section \<open>Basic facts\<close>

lemma andThen_simps [simp]:
  "andThen (Return r s) f = f r s"
  "andThen (Blocked s) f = Blocked s"
  "andThen Panic f = Panic"
  by (simp_all add: andThen_def)

lemma held_again: "mu q \<Longrightarrow> q\<lparr>mu := True\<rparr> = q"
  by (cases q) simp

lemma Push_idle:
  "\<not> mu q \<Longrightarrow>
   Push v q = Return () (q\<lparr>data := data q @ [v], length_fld := length_fld q + 1,
                             totalPushed := totalPushed q + 1\<rparr>)"
  by (cases q) (simp add: Push_def Lock_def Unlock_def)

lemma PushMany_plain_idle:
  "\<not> mu q \<Longrightarrow> vs \<noteq> [] \<Longrightarrow>
   PushMany vs False q =
     Return () (q\<lparr>data := data q @ vs, length_fld := length_fld q + int (length vs)\<rparr>)"
  by (cases q) (simp add: PushMany_def Lock_def Unlock_def)

lemma PushMany_nothing: "PushMany [] unique q = Return () q"
  by (simp add: PushMany_def)

lemma Len_held: "mu q \<Longrightarrow> Len q = Blocked q"
  by (simp add: Len_def Lock_def)

lemma Len_idle: "\<not> mu q \<Longrightarrow> Len q = Return (length_fld q) q"
  by (cases q) (simp add: Len_def Lock_def Unlock_def)

lemma IsEmpty_idle: "\<not> mu q \<Longrightarrow> IsEmpty q = Return (length_fld q = 0) q"
  by (cases q) (simp add: IsEmpty_def Lock_def Unlock_def)

lemma TotalIn_idle: "\<not> mu q \<Longrightarrow> TotalIn q = Return (totalPushed q) q"
  by (cases q) (simp add: TotalIn_def Lock_def Unlock_def)

lemma InQueue_blocks: "InQueue s q = Blocked (q\<lparr>mu := True\<rparr>)"
  by (cases "mu q") (simp_all add: InQueue_def Lock_def Len_held held_again)

lemma PushUnique_blocks: "PushUnique v q = Blocked (q\<lparr>mu := True\<rparr>)"
  by (simp add: PushUnique_def InQueue_blocks)

lemma PushMany_unique_blocks:
  "vs \<noteq> [] \<Longrightarrow> PushMany vs True q = Blocked (q\<lparr>mu := True\<rparr>)"
  by (cases vs) (simp_all add: PushMany_def PushUnique_blocks)

lemma Top_empty: "\<not> mu q \<Longrightarrow> length_fld q = 0 \<Longrightarrow> Top q = Return (NilValue, Some ''queue empty'') q"
  by (cases q) (simp add: Top_def Lock_def Unlock_def)

lemma Pop_empty: "\<not> mu q \<Longrightarrow> length_fld q = 0 \<Longrightarrow> Pop q = Return (NilValue, Some ''queue empty'') q"
  by (cases q) (simp add: Pop_def Lock_def Unlock_def)

lemma Top_front:
  "\<not> mu q \<Longrightarrow> length_fld q \<noteq> 0 \<Longrightarrow> data q = x # xs \<Longrightarrow> Top q = Return (x, None) q"
  by (cases q) (simp add: Top_def Lock_def Unlock_def)

lemma Pop_front:
  "\<not> mu q \<Longrightarrow> length_fld q \<noteq> 0 \<Longrightarrow> data q = x # xs \<Longrightarrow>
   Pop q = Return (x, None) (q\<lparr>data := xs, length_fld := length_fld q - 1\<rparr>)"
  by (cases q) (simp add: Pop_def Lock_def Unlock_def)

lemma Pop_broken: "\<not> mu q \<Longrightarrow> length_fld q \<noteq> 0 \<Longrightarrow> data q = [] \<Longrightarrow> Pop q = Panic"
  by (cases q) (simp add: Pop_def Lock_def Unlock_def)

text \<open>
  The lemmas above say what each method does on an idle queue. \<open>InQueue\<close> is the exception:
  whatever the queue holds, its call of \<open>Len\<close> asks for the mutex that \<open>InQueue\<close> itself
  has just taken, so \<open>InQueue\<close> never returns; \<open>PushUnique\<close> starts with \<open>InQueue\<close>, and
  \<open>PushMany\<close> with \<open>unique\<close> set starts with \<open>PushUnique\<close>.
\<close>

subsection \<open>Runs of \<open>Push\<close> and \<open>Pop\<close>\<close>

lemma pushAll_idle:
  "\<not> mu q \<Longrightarrow>
   pushAll vs q =
     Return () (q\<lparr>data := data q @ vs, length_fld := length_fld q + int (length vs),
                   totalPushed := totalPushed q + int (length vs)\<rparr>)"
proof (induction vs arbitrary: q)
  case Nil
  then show ?case by (cases q) simp
next
  case (Cons v vs)
  let ?q1 = "q\<lparr>data := data q @ [v], length_fld := length_fld q + 1,
                totalPushed := totalPushed q + 1\<rparr>"
  have free: "\<not> mu ?q1" using Cons.prems by simp
  have "pushAll (v # vs) q = pushAll vs ?q1"
    using Cons.prems by (simp add: Push_idle)
  also have "\<dots> = Return () (?q1\<lparr>data := data ?q1 @ vs,
                 length_fld := length_fld ?q1 + int (length vs),
                 totalPushed := totalPushed ?q1 + int (length vs)\<rparr>)"
    by (rule Cons.IH [OF free])
  finally show ?case by (cases q) simp
qed

lemma popN_idle:
  "\<not> mu q \<Longrightarrow> length_fld q = int (length (data q)) \<Longrightarrow> n \<le> length (data q) \<Longrightarrow>
   popN n q =
     Return (map (\<lambda>v. (v, None)) (take n (data q)))
            (q\<lparr>data := drop n (data q), length_fld := length_fld q - int n\<rparr>)"
proof (induction n arbitrary: q)
  case 0
  then show ?case by (cases q) simp
next
  case (Suc n)
  then obtain x xs where front: "data q = x # xs"
    by (cases "data q") auto
  let ?q1 = "q\<lparr>data := xs, length_fld := length_fld q - 1\<rparr>"
  have nonzero: "length_fld q \<noteq> 0" using Suc.prems front by simp
  have pop: "Pop q = Return (x, None) ?q1"
    using Suc.prems(1) nonzero front by (rule Pop_front)
  have "popN n ?q1 =
     Return (map (\<lambda>v. (v, None)) (take n (data ?q1)))
            (?q1\<lparr>data := drop n (data ?q1), length_fld := length_fld ?q1 - int n\<rparr>)"
    using Suc.prems front by (intro Suc.IH) simp_all
  then show ?case
    using pop front by (cases q) simp
qed

subsection \<open>The cached length along a run\<close>

lemma perform_keeps_count:
  assumes "idle q" and "count_ok q"
  shows "case perform c q of
           Return u q' \<Rightarrow> idle q' \<and> count_ok q'
         | Blocked q' \<Rightarrow> count_ok q'
         | Panic \<Rightarrow> False"
proof (cases c)
  case (CallPush v)
  then show ?thesis using assms by (simp add: idle_def count_ok_def Push_idle)
next
  case (CallPushUnique v)
  then show ?thesis using assms by (simp add: count_ok_def PushUnique_blocks)
next
  case (CallPushMany vs unique)
  show ?thesis
  proof (cases "vs = []")
    case True
    then show ?thesis using assms CallPushMany by (simp add: PushMany_nothing)
  next
    case False
    then show ?thesis using assms CallPushMany
      by (cases unique)
         (simp_all add: idle_def count_ok_def PushMany_unique_blocks PushMany_plain_idle)
  qed
next
  case CallPop
  have free: "\<not> mu q" using assms(1) by (simp add: idle_def)
  show ?thesis
  proof (cases "data q")
    case Nil
    then have "length_fld q = 0" using assms(2) by (simp add: count_ok_def)
    then show ?thesis using assms CallPop free by (simp add: Pop_empty)
  next
    case (Cons x xs)
    then have "length_fld q \<noteq> 0" using assms(2) by (simp add: count_ok_def)
    then have "Pop q = Return (x, None) (q\<lparr>data := xs, length_fld := length_fld q - 1\<rparr>)"
      using free Cons by (simp add: Pop_front)
    then show ?thesis using assms CallPop Cons by (simp add: idle_def count_ok_def)
  qed
qed

lemma run_keeps_count:
  "idle q \<Longrightarrow> count_ok q \<Longrightarrow>
   (case run cs q of
      Return u q' \<Rightarrow> idle q' \<and> count_ok q'
    | Blocked q' \<Rightarrow> count_ok q'
    | Panic \<Rightarrow> False)"
proof (induction cs arbitrary: q)
  case Nil
  then show ?case by simp
next
  case (Cons c cs)
  from perform_keeps_count [OF Cons.prems, of c] show ?case
  proof (cases "perform c q")
    case (Return u q1)
    with perform_keeps_count [OF Cons.prems, of c] have "idle q1" "count_ok q1" by simp_all
    then show ?thesis using Cons.IH [of q1] Return by simp
  next
    case (Blocked q1)
    with perform_keeps_count [OF Cons.prems, of c] show ?thesis by simp
  next
    case Panic
    with perform_keeps_count [OF Cons.prems, of c] show ?thesis by simp
  qed
qed

section \<open>The counter \<open>totalPushed\<close>\<close>

text \<open>
  Claim C1: \<open>PushMany\<close> with \<open>unique = false\<close> and a non-empty list raises \<open>TotalIn\<close> by
  the length of the list.

  The source does not do that. The branch for \<open>!unique\<close> appends the list and adds its
  length to \<open>length\<close>, and has no statement on \<open>totalPushed\<close>, which \<open>Push\<close> and
  \<open>PushUnique\<close> both increment. On a new queue \<open>TotalIn\<close> is \<open>0\<close> before
  \<open>PushMany([1], false)\<close> and \<open>0\<close> after it, with one element in the queue.
\<close>

theorem PushMany_leaves_TotalIn:
  "TotalIn (MakeQueue 0 :: nat Queue) = Return 0 (MakeQueue 0)
   \<and> andThen (PushMany [Value (1::nat)] False (MakeQueue 0)) (\<lambda>_ q. TotalIn q)
       = Return 0 \<lparr>data = [Value 1], length_fld = 1, totalPushed = 0, mu = False\<rparr>"
  by (simp add: MakeQueue_def TotalIn_idle PushMany_plain_idle)

text \<open>
  Claim C2: \<open>TotalIn() >= Len()\<close> in every queue that a sequence of \<open>Push\<close>, \<open>PushUnique\<close>,
  \<open>PushMany\<close> and \<open>Pop\<close> calls reaches from a new queue.

  The source does not keep that, for the reason given under C1: the single call
  \<open>PushMany([1], false)\<close> on a new queue returns with \<open>length = 1\<close> and \<open>totalPushed = 0\<close>.
\<close>

theorem total_below_count:
  "run [CallPushMany [Value (1::nat)] False] (MakeQueue 0)
     = Return () \<lparr>data = [Value 1], length_fld = 1, totalPushed = 0, mu = False\<rparr>
   \<and> totalPushed \<lparr>data = [Value (1::nat)], length_fld = 1, totalPushed = 0, mu = False\<rparr>
     < length_fld \<lparr>data = [Value (1::nat)], length_fld = 1, totalPushed = 0, mu = False\<rparr>"
  by (simp add: MakeQueue_def PushMany_plain_idle)

section \<open>The mutex\<close>

text \<open>
  Claim C3: every public method releases the lock before it returns and calls no other
  locking method while it holds the lock; \<open>InQueue\<close> in particular, on every path.

  \<open>InQueue\<close> breaks the second half on every call: it takes the lock and then calls
  \<open>Len\<close>, which takes it again. The call is blocked with the mutex held, on an empty
  queue and on a queue that holds the value asked for alike.
\<close>

theorem InQueue_locks_twice:
  "InQueue (Value (1::nat)) (MakeQueue 0)
     = Blocked \<lparr>data = [], length_fld = 0, totalPushed = 0, mu = True\<rparr>
   \<and> InQueue (Value (1::nat)) \<lparr>data = [Value 1], length_fld = 1, totalPushed = 1, mu = False\<rparr>
     = Blocked \<lparr>data = [Value 1], length_fld = 1, totalPushed = 1, mu = True\<rparr>"
  by (simp add: MakeQueue_def InQueue_blocks)

section \<open>First in, first out\<close>

text \<open>
  Claim C5: for every list of values \<open>vs\<close> and every capacity hint \<open>n\<close>, pushing \<open>vs\<close> in
  order onto \<open>MakeQueue n\<close> and popping \<open>length vs\<close> times returns the values of \<open>vs\<close> in
  order, each with a \<open>nil\<close> error; the queue is empty afterwards and has counted every
  push.
\<close>

theorem fifo_order:
  "andThen (pushAll vs (MakeQueue n)) (\<lambda>_ q. popN (length vs) q) =
     Return (map (\<lambda>v. (v, None)) vs)
            \<lparr>data = [], length_fld = 0, totalPushed = int (length vs), mu = False\<rparr>"
proof -
  let ?q0 = "\<lparr>data = [], length_fld = 0, totalPushed = 0, mu = False\<rparr> :: 'a Queue"
  let ?q1 = "\<lparr>data = vs, length_fld = int (length vs), totalPushed = int (length vs),
               mu = False\<rparr>"
  have fresh: "MakeQueue n = ?q0" by (simp add: MakeQueue_def)
  have "pushAll vs ?q0 = Return () ?q1"
    by (simp add: pushAll_idle)
  moreover have "popN (length vs) ?q1 =
     Return (map (\<lambda>v. (v, None)) vs)
            \<lparr>data = [], length_fld = 0, totalPushed = int (length vs), mu = False\<rparr>"
    by (simp add: popN_idle)
  ultimately show ?thesis by (simp add: fresh)
qed

section \<open>\<open>Top\<close> and \<open>Pop\<close>\<close>

text \<open>
  Claim C6: on an idle queue whose cached length is the length of its slice, \<open>Top\<close> and
  \<open>Pop\<close> return an error exactly when the length is zero, and the error is
  \<open>queue empty\<close>; otherwise both return the first element of the slice with a \<open>nil\<close>
  error, \<open>Top\<close> leaves the queue as it is, \<open>Pop\<close> removes that element and takes one from
  \<open>length\<close>, and neither changes \<open>totalPushed\<close>.
\<close>

theorem Top_Pop_contract:
  assumes "idle q" and "count_ok q"
  shows "((\<exists>r m q'. Top q = Return (r, Some m) q') \<longleftrightarrow> length_fld q = 0)
       \<and> ((\<exists>r m q'. Pop q = Return (r, Some m) q') \<longleftrightarrow> length_fld q = 0)
       \<and> (length_fld q = 0 \<longrightarrow>
            Top q = Return (NilValue, Some ''queue empty'') q
          \<and> Pop q = Return (NilValue, Some ''queue empty'') q)
       \<and> (length_fld q \<noteq> 0 \<longrightarrow>
            (\<exists>x xs. data q = x # xs
               \<and> Top q = Return (x, None) q
               \<and> Pop q = Return (x, None) (q\<lparr>data := xs, length_fld := length_fld q - 1\<rparr>)))
       \<and> (\<forall>r q'. Top q = Return r q' \<or> Pop q = Return r q' \<longrightarrow> totalPushed q' = totalPushed q)"
proof (cases "length_fld q = 0")
  case True
  have free: "\<not> mu q" using assms(1) by (simp add: idle_def)
  have "Top q = Return (NilValue, Some ''queue empty'') q"
    using free True by (rule Top_empty)
  moreover have "Pop q = Return (NilValue, Some ''queue empty'') q"
    using free True by (rule Pop_empty)
  ultimately show ?thesis using True by auto
next
  case False
  have free: "\<not> mu q" using assms(1) by (simp add: idle_def)
  from False assms(2) obtain x xs where front: "data q = x # xs"
    by (cases "data q") (auto simp: count_ok_def)
  have "Top q = Return (x, None) q"
    using free False front by (rule Top_front)
  moreover have "Pop q = Return (x, None) (q\<lparr>data := xs, length_fld := length_fld q - 1\<rparr>)"
    using free False front by (rule Pop_front)
  ultimately show ?thesis using False front by auto
qed

theorem Top_Pop_contract_witness:
  "idle \<lparr>data = [Value (7::nat), Value 8], length_fld = 2, totalPushed = 5, mu = False\<rparr>
   \<and> count_ok \<lparr>data = [Value (7::nat), Value 8], length_fld = 2, totalPushed = 5, mu = False\<rparr>
   \<and> Top \<lparr>data = [Value (7::nat), Value 8], length_fld = 2, totalPushed = 5, mu = False\<rparr>
       = Return (Value 7, None)
           \<lparr>data = [Value 7, Value 8], length_fld = 2, totalPushed = 5, mu = False\<rparr>
   \<and> Pop \<lparr>data = [Value (7::nat), Value 8], length_fld = 2, totalPushed = 5, mu = False\<rparr>
       = Return (Value 7, None) \<lparr>data = [Value 8], length_fld = 1, totalPushed = 5, mu = False\<rparr>"
proof -
  let ?q = "\<lparr>data = [Value (7::nat), Value 8], length_fld = 2, totalPushed = 5, mu = False\<rparr>"
  have a: "idle ?q" by (simp add: idle_def)
  have b: "count_ok ?q" by (simp add: count_ok_def)
  show ?thesis using a b Top_Pop_contract [OF a b] by simp
qed

text \<open>
  Claim C10: when the length is zero, \<open>Top\<close> and \<open>Pop\<close> return \<open>nil\<close> with the error and
  leave the queue exactly as it was: slice, \<open>length\<close>, \<open>totalPushed\<close> and the released
  mutex.
\<close>

theorem empty_failure_leaves_queue:
  assumes "idle q" and "length_fld q = 0"
  shows "Top q = Return (NilValue, Some ''queue empty'') q
       \<and> Pop q = Return (NilValue, Some ''queue empty'') q"
  using assms by (simp add: idle_def Top_empty Pop_empty)

theorem empty_failure_leaves_queue_witness:
  "idle \<lparr>data = ([] :: nat iface list), length_fld = 0, totalPushed = 3, mu = False\<rparr>
   \<and> length_fld \<lparr>data = ([] :: nat iface list), length_fld = 0, totalPushed = 3, mu = False\<rparr> = 0
   \<and> Top \<lparr>data = ([] :: nat iface list), length_fld = 0, totalPushed = 3, mu = False\<rparr>
       = Return (NilValue, Some ''queue empty'')
           \<lparr>data = [], length_fld = 0, totalPushed = 3, mu = False\<rparr>
   \<and> Pop \<lparr>data = ([] :: nat iface list), length_fld = 0, totalPushed = 3, mu = False\<rparr>
       = Return (NilValue, Some ''queue empty'')
           \<lparr>data = [], length_fld = 0, totalPushed = 3, mu = False\<rparr>"
proof -
  let ?q = "\<lparr>data = ([] :: nat iface list), length_fld = 0, totalPushed = 3, mu = False\<rparr>"
  have a: "idle ?q" by (simp add: idle_def)
  have b: "length_fld ?q = 0" by simp
  show ?thesis using a b empty_failure_leaves_queue [OF a b] by simp
qed

section \<open>Insertion of new values only\<close>

text \<open>
  Claim C7: \<open>PushUnique(v)\<close> leaves the queue unchanged when it holds a value equal to \<open>v\<close>,
  and otherwise does what \<open>Push(v)\<close> does.

  The source does not get that far. \<open>PushUnique\<close> begins with \<open>InQueue\<close>, which blocks
  (see C3): on a new queue, which holds no \<open>1\<close>, \<open>PushUnique(1)\<close> appends nothing and
  never returns.
\<close>

theorem PushUnique_never_appends:
  "PushUnique (Value (1::nat)) (MakeQueue 0)
     = Blocked \<lparr>data = [], length_fld = 0, totalPushed = 0, mu = True\<rparr>"
  by (simp add: MakeQueue_def PushUnique_blocks)

text \<open>
  Claim C8: \<open>PushMany\<close> with \<open>unique = true\<close> checks each value against the queue as it is
  when that value is considered; \<open>PushMany([a, a, b], true)\<close> on an empty queue leaves
  \<open>[a, b]\<close> and a length of \<open>2\<close>.

  In the source the loop calls \<open>PushUnique\<close> for the first value, and that call blocks
  (see C7, C3): the queue stays empty and \<open>PushMany\<close> never returns.
\<close>

theorem PushMany_unique_never_appends:
  "PushMany [Value (1::nat), Value 1, Value 2] True (MakeQueue 0)
     = Blocked \<lparr>data = [], length_fld = 0, totalPushed = 0, mu = True\<rparr>"
  by (simp add: MakeQueue_def PushMany_unique_blocks)

section \<open>The cached length\<close>

text \<open>
  Claim C9: \<open>length\<close> equals the length of the slice after every sequence of \<open>Push\<close>,
  \<open>PushUnique\<close>, \<open>PushMany\<close> and \<open>Pop\<close> calls on a new queue, so that \<open>Len\<close> and \<open>IsEmpty\<close>
  report the length and the emptiness of the slice.

  Every case of a run is covered. When all calls return, the equation holds, the mutex is
  free, and \<open>Len\<close> and \<open>IsEmpty\<close> return the slice's length and emptiness without
  changing the queue. When a call blocks (a \<open>PushUnique\<close>, or a \<open>PushMany\<close> that asks
  for new values only), the equation holds in the queue it blocks on. No run panics.
\<close>

theorem count_matches_slice:
  "case run cs (MakeQueue n) of
     Return u q \<Rightarrow>
       length_fld q = int (length (data q))
       \<and> Len q = Return (int (length (data q))) q
       \<and> IsEmpty q = Return (data q = []) q
   | Blocked q \<Rightarrow> length_fld q = int (length (data q))
   | Panic \<Rightarrow> False"
proof -
  have "idle (MakeQueue n :: 'a Queue)" "count_ok (MakeQueue n :: 'a Queue)"
    by (simp_all add: idle_def count_ok_def MakeQueue_def)
  then have inv: "case run cs (MakeQueue n :: 'a Queue) of
      Return u q' \<Rightarrow> idle q' \<and> count_ok q'
    | Blocked q' \<Rightarrow> count_ok q'
    | Panic \<Rightarrow> False"
    by (rule run_keeps_count)
  show ?thesis
  proof (cases "run cs (MakeQueue n :: 'a Queue)")
    case (Return u q)
    with inv have "\<not> mu q" "length_fld q = int (length (data q))"
      by (simp_all add: idle_def count_ok_def)
    then show ?thesis using Return by (simp add: Len_idle IsEmpty_idle)
  next
    case (Blocked q)
    with inv show ?thesis by (simp add: count_ok_def)
  next
    case Panic
    with inv show ?thesis by simp
  qed
qed

end
